theory Spec2Isabelle
  imports Main "HOL-Library.Word"
begin

section \<open>The Telnet connection of connection.go\<close>

text \<open>
  A shallow embedding of \<^verbatim>\<open>connection.go\<close>: the byte-level demultiplexer
  (\<^verbatim>\<open>processCommands\<close>), the option negotiation (\<^verbatim>\<open>negotiateOption\<close>), the
  built-in option handlers, and the application-facing operations
  (\<^verbatim>\<open>Connect\<close>, \<^verbatim>\<open>Read\<close>, \<^verbatim>\<open>Write\<close>, \<^verbatim>\<open>Close\<close>, \<^verbatim>\<open>SetWindowSize\<close>).
  Go's \<^verbatim>\<open>byte\<close> is an 8-bit word. A Go \<^verbatim>\<open>error\<close> result is an \<open>error option\<close>
  (\<open>None\<close> is \<^verbatim>\<open>nil\<close>); a run-time panic (an index out of range) is the value
  \<open>Panic\<close>.
\<close>

subsection \<open>Constants and types\<close>

type_synonym byte = "8 word"

text \<open>\<^verbatim>\<open>telnetCommand\<close> (RFC 854).\<close>

abbreviation (input) SE :: byte where "SE \<equiv> 240"
abbreviation (input) SB :: byte where "SB \<equiv> 250"
abbreviation (input) WILL :: byte where "WILL \<equiv> 251"
abbreviation (input) WONT :: byte where "WONT \<equiv> 252"
abbreviation (input) DO :: byte where "DO \<equiv> 253"
abbreviation (input) DONT :: byte where "DONT \<equiv> 254"
abbreviation (input) IAC :: byte where "IAC \<equiv> 255"

text \<open>\<^verbatim>\<open>telnetOptionCode\<close>.\<close>

abbreviation (input) BinaryTransmission :: byte where "BinaryTransmission \<equiv> 0"
abbreviation (input) Echo :: byte where "Echo \<equiv> 1"
abbreviation (input) SuppressGoAhead :: byte where "SuppressGoAhead \<equiv> 3"
abbreviation (input) Status :: byte where "Status \<equiv> 5"
abbreviation (input) TerminalType :: byte where "TerminalType \<equiv> 24"
abbreviation (input) NegotiateAboutWindowSize :: byte where "NegotiateAboutWindowSize \<equiv> 31"
abbreviation (input) TerminalSpeed :: byte where "TerminalSpeed \<equiv> 32"
abbreviation (input) RemoteFlowControl :: byte where "RemoteFlowControl \<equiv> 33"

text \<open>\<^verbatim>\<open>telnetOperation\<close>.\<close>

abbreviation (input) NONE :: byte where "NONE \<equiv> 255"
abbreviation (input) IS :: byte where "IS \<equiv> 0"
abbreviation (input) SEND :: byte where "SEND \<equiv> 1"

definition bufferSize :: nat where
  "bufferSize = 1024"

datatype streamState = stateData | stateInIAC | stateInSB | stateEscIAC | stateNotReady

text \<open>
  A \<^verbatim>\<open>telnetOptionHandler\<close> is a function value in the source. The three functions of
  that type that the file defines are the values modelled here; \<open>None\<close> is the
  \<^verbatim>\<open>nil\<close> handler.
\<close>

datatype handler = H_terminalType | H_negotiateAboutWindowSize | H_terminalSpeed

record telnetOption =
  weWill :: bool
  peerDo :: bool
  sbHandler :: "handler option"
  doHandler :: "handler option"

text \<open>
  The struct \<^verbatim>\<open>Connection\<close>. Its field \<^verbatim>\<open>conn\<close>, the transport, is the \<open>world\<close>
  below. A \<^verbatim>\<open>nil\<close> map reads like the empty map, a \<^verbatim>\<open>nil\<close> slice is the empty list.
\<close>

record Connection =
  options :: "byte \<rightharpoonup> telnetOption"
  state :: streamState
  winSize :: "byte list"

datatype error = ErrNotReady | ErrTransport nat

datatype ret = Ret "error option" | Panic

subsection \<open>The transport and the environment\<close>

text \<open>
  What the code does to the outside is recorded in a trace: \<open>EvWrite d\<close> is one call
  \<^verbatim>\<open>p.conn.Write(d)\<close>. \<open>EvNegotiate\<close> and \<open>EvHandler\<close> have no counterpart in the
  source: they record each call of \<^verbatim>\<open>negotiateOption\<close> and each call of an option's
  handler by \<^verbatim>\<open>negotiateOption\<close>, with the buffer passed, so that statements can
  count them.

  \<open>wres\<close> holds the results of the coming \<^verbatim>\<open>conn.Write\<close> calls, in order (\<open>Some e\<close>
  is a failing write; when the list is used up writes succeed), \<open>term_env\<close> is
  \<^verbatim>\<open>os.LookupEnv("TERM")\<close>, \<open>cres\<close> is what \<^verbatim>\<open>conn.Close()\<close> returns.
\<close>

datatype event =
    EvWrite "byte list"
  | EvNegotiate "byte list"
  | EvHandler handler "byte list"
  | EvClose

record world =
  wres :: "error option list"
  term_env :: "byte list option"
  cres :: "error option"
  trace :: "event list"

definition conn_Write :: "byte list \<Rightarrow> world \<Rightarrow> error option \<times> world" where
  "conn_Write d w =
     (case wres w of
        [] \<Rightarrow> (None, w\<lparr>trace := trace w @ [EvWrite d]\<rparr>)
      | r # rs \<Rightarrow> (r, w\<lparr>wres := rs, trace := trace w @ [EvWrite d]\<rparr>))"

definition conn_Close :: "world \<Rightarrow> error option \<times> world" where
  "conn_Close w = (cres w, w\<lparr>trace := trace w @ [EvClose]\<rparr>)"

subsection \<open>Write and the sub-negotiation frame\<close>

text \<open>\<^verbatim>\<open>Write\<close>; the byte count it returns is dropped by its only caller here.\<close>

definition Write :: "Connection \<Rightarrow> byte list \<Rightarrow> world \<Rightarrow> error option \<times> world" where
  "Write p b w =
     (if state p = stateNotReady then (Some ErrNotReady, w) else conn_Write b w)"

definition sendSB :: "Connection \<Rightarrow> byte \<Rightarrow> byte \<Rightarrow> byte list \<Rightarrow> world \<Rightarrow> error option \<times> world" where
  "sendSB p option operation data w =
     (let result = [IAC, SB, option];
          result = (if operation \<noteq> NONE then result @ [operation] else result);
          result = result @ data;
          result = result @ [IAC, SE]
      in Write p result w)"

subsection \<open>The built-in option handlers\<close>

text \<open>\<^verbatim>\<open>data[3]\<close> panics on a buffer of fewer than four bytes.\<close>

definition terminalTypeOptionHandler :: "Connection \<Rightarrow> byte list \<Rightarrow> world \<Rightarrow> ret \<times> world" where
  "terminalTypeOptionHandler p data w =
     (if length data \<le> 3 then (Panic, w)
      else let operation = data ! 3 in
        if operation = SEND then
          (case term_env w of
             None \<Rightarrow> (Ret None, w)
           | Some term \<Rightarrow> (let (err, w') = sendSB p TerminalType IS term w in (Ret err, w')))
        else (Ret None, w))"

definition negotiateAboutWindowSizeOptionHandler :: "Connection \<Rightarrow> byte list \<Rightarrow> world \<Rightarrow> ret \<times> world" where
  "negotiateAboutWindowSizeOptionHandler p data w =
     (let (err, w') = sendSB p NegotiateAboutWindowSize NONE (winSize p) w in (Ret err, w'))"

text \<open>The speed is the string \<^verbatim>\<open>"115200,115200"\<close>, as bytes.\<close>

definition speed :: "byte list" where
  "speed = [49, 49, 53, 50, 48, 48, 44, 49, 49, 53, 50, 48, 48]"

definition terminalSpeedOptionHandler :: "Connection \<Rightarrow> byte list \<Rightarrow> world \<Rightarrow> ret \<times> world" where
  "terminalSpeedOptionHandler p data w =
     (if length data \<le> 3 then (Panic, w)
      else let operation = data ! 3 in
        if operation = SEND then
          (let (err, w') = sendSB p TerminalSpeed IS speed w in (Ret err, w'))
        else (Ret None, w))"

text \<open>A call of a handler through the option table.\<close>

definition call_handler :: "handler \<Rightarrow> Connection \<Rightarrow> byte list \<Rightarrow> world \<Rightarrow> ret \<times> world" where
  "call_handler h p data w =
     (let w = w\<lparr>trace := trace w @ [EvHandler h data]\<rparr> in
      case h of
        H_terminalType \<Rightarrow> terminalTypeOptionHandler p data w
      | H_negotiateAboutWindowSize \<Rightarrow> negotiateAboutWindowSizeOptionHandler p data w
      | H_terminalSpeed \<Rightarrow> terminalSpeedOptionHandler p data w)"

subsection \<open>Option negotiation\<close>

text \<open>
  \<^verbatim>\<open>negotiateOption\<close> has a value receiver and passes the address of its copy to the
  handlers, none of which writes to it: it returns no connection. \<^verbatim>\<open>data[1]\<close> and
  \<^verbatim>\<open>data[2]\<close> are read with no check of the length; \<^verbatim>\<open>data[1] = ...\<close> overwrites the
  caller's buffer, which the caller drops or truncates right after.
\<close>

definition negotiateOption :: "Connection \<Rightarrow> byte list \<Rightarrow> world \<Rightarrow> ret \<times> world" where
  "negotiateOption p data w0 =
     (let w = w0\<lparr>trace := trace w0 @ [EvNegotiate data]\<rparr> in
      if length data \<le> 1 then (Panic, w)
      else if length data \<le> 2 then (Panic, w)
      else
        let receiverCommand = data ! 1;
            receivedOptionCode = data ! 2
        in
          if receiverCommand = DO then
            (case options p receivedOptionCode of
               None \<Rightarrow>
                 (let data = data[1 := WONT];
                      (err, w) = conn_Write data w
                  in (Ret None, w))
             | Some option \<Rightarrow>
                 (let data = (if weWill option then data[1 := WILL] else data[1 := WONT]);
                      (err, w) = conn_Write data w
                  in case doHandler option of
                       None \<Rightarrow> (Ret err, w)
                     | Some h \<Rightarrow> call_handler h p data w))
          else if receiverCommand = WILL then
            (case options p receivedOptionCode of
               None \<Rightarrow>
                 (let data = data[1 := DONT];
                      (err, w) = conn_Write data w
                  in (Ret None, w))
             | Some option \<Rightarrow>
                 (let data = (if peerDo option then data[1 := DO] else data[1 := DONT]);
                      (err, w) = conn_Write data w
                  in (Ret err, w)))
          else if receiverCommand = SB then
            (case options p receivedOptionCode of
               None \<Rightarrow> (Ret None, w)
             | Some option \<Rightarrow>
                 (case sbHandler option of
                    None \<Rightarrow> (Ret None, w)
                  | Some h \<Rightarrow> call_handler h p data w))
          else (Ret None, w))"

subsection \<open>The demultiplexer\<close>

text \<open>
  One pass of the loop body of \<^verbatim>\<open>processCommands\<close> on the byte \<open>b\<close>. The state of
  the loop is the connection behind the pointer receiver, the local
  \<^verbatim>\<open>commandBuffer\<close>, the caller's \<^verbatim>\<open>outputData\<close> and the world. The first component
  of the result is \<open>None\<close> when the loop goes on and \<open>Some r\<close> when the function
  returns \<open>r\<close> from inside the loop.
\<close>

type_synonym locals = "Connection \<times> byte list \<times> byte list \<times> world"

definition processByte :: "byte \<Rightarrow> locals \<Rightarrow> ret option \<times> locals" where
  "processByte b s =
     (case s of (p, commandBuffer, outputData, w) \<Rightarrow>
        (case state p of
           stateNotReady \<Rightarrow> (Some (Ret (Some ErrNotReady)), s)
         | stateData \<Rightarrow>
             if b = IAC then (None, (p\<lparr>state := stateInIAC\<rparr>, commandBuffer @ [b], outputData, w))
             else (None, (p, commandBuffer, outputData @ [b], w))
         | stateInIAC \<Rightarrow>
             (let commandBuffer = commandBuffer @ [b] in
              if b = WILL \<or> b = WONT \<or> b = DO \<or> b = DONT then
                (None, (p, commandBuffer, outputData, w))
              else if b = IAC then
                (None, (p\<lparr>state := stateData\<rparr>, commandBuffer, outputData @ [b], w))
              else if b = SB then
                (None, (p\<lparr>state := stateInSB\<rparr>, commandBuffer, outputData, w))
              else
                (case negotiateOption p commandBuffer w of
                   (Ret None, w') \<Rightarrow> (None, (p\<lparr>state := stateData\<rparr>, [], outputData, w'))
                 | (r, w') \<Rightarrow> (Some r, (p, commandBuffer, outputData, w'))))
         | stateInSB \<Rightarrow>
             (let p = (if b = IAC then p\<lparr>state := stateEscIAC\<rparr> else p)
              in (None, (p, commandBuffer @ [b], outputData, w)))
         | stateEscIAC \<Rightarrow>
             (let commandBuffer = commandBuffer @ [b];
                  p = (if b = IAC then p\<lparr>state := stateInSB\<rparr> else p)
              in if b = SE then
                   (case negotiateOption p commandBuffer w of
                      (Ret None, w') \<Rightarrow> (None, (p\<lparr>state := stateData\<rparr>, [], outputData, w'))
                    | (r, w') \<Rightarrow> (Some r, (p, commandBuffer, outputData, w')))
                 else (None, (p, commandBuffer, outputData, w)))))"

text \<open>The \<^verbatim>\<open>for ... range buffer.Bytes()\<close> loop, and the \<^verbatim>\<open>return nil\<close> after it.\<close>

fun processCommands_loop :: "byte list \<Rightarrow> locals \<Rightarrow> ret \<times> locals" where
  "processCommands_loop [] s = (Ret None, s)"
| "processCommands_loop (b # bs) s =
     (case processByte b s of
        (None, s') \<Rightarrow> processCommands_loop bs s'
      | (Some r, s') \<Rightarrow> (r, s'))"

text \<open>
  \<^verbatim>\<open>processCommands\<close> starts with an empty \<^verbatim>\<open>commandBuffer\<close>. It returns the
  result, the connection behind the pointer, \<^verbatim>\<open>outputData\<close> and the world.
\<close>

definition processCommands ::
  "Connection \<Rightarrow> byte list \<Rightarrow> byte list \<Rightarrow> world \<Rightarrow> ret \<times> Connection \<times> byte list \<times> world" where
  "processCommands p buffer outputData w =
     (case processCommands_loop buffer (p, [], outputData, w) of
        (r, (p', commandBuffer, outputData', w')) \<Rightarrow> (r, p', outputData', w'))"

subsection \<open>Read\<close>

text \<open>
  The transport's read side is a script: the results of the coming calls of
  \<^verbatim>\<open>p.conn.Read(rawData)\<close> in order, each the bytes \<^verbatim>\<open>rawData[:n]\<close> (at most
  \<open>bufferSize\<close> of them) and the error.
  When the script is used up the next call blocks for ever, and so does \<^verbatim>\<open>Read\<close>:
  the value \<open>Blocks\<close>.

  \<open>Returns n d err\<close> is \<^verbatim>\<open>return n, err\<close> with \<open>d\<close> the bytes copied into \<^verbatim>\<open>b\<close>;
  \<open>blen\<close> is \<^verbatim>\<open>len(b)\<close>.
\<close>

type_synonym script = "(byte list \<times> error option) list"

datatype read_ret = Returns nat "byte list" "error option" | Panics | Blocks

text \<open>
  \<^verbatim>\<open>outputData.Read(b)\<close> of \<^verbatim>\<open>bytes.Buffer\<close>: the count, the bytes copied and what
  stays in the buffer.
\<close>

definition Buffer_Read :: "byte list \<Rightarrow> nat \<Rightarrow> nat \<times> byte list \<times> byte list" where
  "Buffer_Read outputData blen =
     (let n = min blen (length outputData) in (n, take n outputData, drop n outputData))"

text \<open>
  The \<^verbatim>\<open>for\<close> loop of \<^verbatim>\<open>Read\<close>. \<open>p\<close> is the receiver, a local copy of the
  connection, which \<^verbatim>\<open>p.processCommands\<close> updates through its address; its last
  value is returned with the result so that it can be compared with the caller's.
\<close>

fun Read_loop :: "script \<Rightarrow> Connection \<Rightarrow> nat \<Rightarrow> byte list \<Rightarrow> world \<Rightarrow> read_ret \<times> script \<times> Connection \<times> world" where
  "Read_loop [] p blen outputData w = (Blocks, [], p, w)"
| "Read_loop ((rawData, err) # rs) p blen outputData w =
     (if length rawData > 0 then
        (case processCommands p rawData outputData w of
           (Panic, p', outputData', w') \<Rightarrow> (Panics, rs, p', w')
         | (Ret (Some e), p', outputData', w') \<Rightarrow>
             (let (n, got, rest) = Buffer_Read outputData' blen
              in (Returns n got (Some e), rs, p', w'))
         | (Ret None, p', outputData', w') \<Rightarrow>
             (let (n, got, rest) = Buffer_Read outputData' blen
              in if n > 0 then (Returns n got None, rs, p', w')
                 else if err \<noteq> None then (Returns n got err, rs, p', w')
                 else Read_loop rs p' blen rest w'))
      else if err \<noteq> None then (Returns 0 [] err, rs, p, w)
      else Read_loop rs p blen outputData w)"

definition Read :: "Connection \<Rightarrow> nat \<Rightarrow> script \<Rightarrow> world \<Rightarrow> read_ret \<times> script \<times> Connection \<times> world" where
  "Read p blen rs w =
     (if state p = stateNotReady then (Returns 0 [] (Some ErrNotReady), rs, p, w)
      else Read_loop rs p blen [] w)"

subsection \<open>Close, AddOption, Connect, SetWindowSize\<close>

text \<open>The methods with a pointer receiver return the connection behind the pointer.\<close>

definition Close :: "Connection \<Rightarrow> world \<Rightarrow> error option \<times> Connection \<times> world" where
  "Close p w =
     (let p = p\<lparr>state := stateNotReady\<rparr>;
          (err, w) = conn_Close w
      in (err, p, w))"

definition AddOption ::
  "Connection \<Rightarrow> byte \<Rightarrow> bool \<Rightarrow> bool \<Rightarrow> handler option \<Rightarrow> handler option \<Rightarrow> Connection" where
  "AddOption p optionCode weWill' peerDo' sbHandler' doHandler' =
     (let option = \<lparr>weWill = weWill', peerDo = peerDo', sbHandler = sbHandler', doHandler = doHandler'\<rparr>
      in p\<lparr>options := (options p)(optionCode \<mapsto> option)\<rparr>)"

text \<open>
  \<^verbatim>\<open>Connect\<close>, given the result of \<^verbatim>\<open>net.Dial\<close>. The connection starts as the zero
  value of the struct: no options, no window size.
\<close>

definition Connect :: "error option \<Rightarrow> error + Connection" where
  "Connect dial =
     (let connection = \<lparr>options = Map.empty, state = stateData, winSize = []\<rparr>;
          connection = connection\<lparr>state := stateNotReady\<rparr>
      in case dial of
           Some err \<Rightarrow> Inl err
         | None \<Rightarrow>
            (let connection = AddOption connection BinaryTransmission False False None None;
                 connection = AddOption connection Echo False True None None;
                 connection = AddOption connection SuppressGoAhead True True None None;
                 connection = AddOption connection Status False False None None;
                 connection = AddOption connection TerminalType True True (Some H_terminalType) None;
                 connection = AddOption connection NegotiateAboutWindowSize True True None
                                (Some H_negotiateAboutWindowSize);
                 connection = AddOption connection TerminalSpeed True True (Some H_terminalSpeed) None;
                 connection = AddOption connection RemoteFlowControl False False None None;
                 connection = connection\<lparr>state := stateData\<rparr>
             in Inr connection))"

text \<open>
  \<^verbatim>\<open>binary.BigEndian.PutUint16(b, v)\<close> on a slice of at least two bytes:
  \<^verbatim>\<open>b[0] = byte(v >> 8); b[1] = byte(v)\<close>.
\<close>

definition PutUint16 :: "byte list \<Rightarrow> 16 word \<Rightarrow> byte list" where
  "PutUint16 b v = b[0 := ucast (drop_bit 8 v), 1 := ucast v]"

text \<open>
  \<^verbatim>\<open>SetWindowSize\<close>; \<^verbatim>\<open>uint16(width)\<close> keeps the low 16 bits of the \<^verbatim>\<open>int\<close>. The two
  slices \<^verbatim>\<open>p.winSize[:2]\<close> and \<^verbatim>\<open>p.winSize[2:]\<close> are the two halves of the buffer. The
  handler's result is dropped.
\<close>

definition SetWindowSize :: "Connection \<Rightarrow> int \<Rightarrow> int \<Rightarrow> world \<Rightarrow> Connection \<times> world" where
  "SetWindowSize p width height w =
     (let p = (if length (winSize p) \<noteq> 4 then p\<lparr>winSize := replicate 4 0\<rparr> else p);
          p = p\<lparr>winSize := PutUint16 (take 2 (winSize p)) (word_of_int width) @ drop 2 (winSize p)\<rparr>;
          p = p\<lparr>winSize := take 2 (winSize p) @ PutUint16 (drop 2 (winSize p)) (word_of_int height)\<rparr>;
          (r, w) = negotiateAboutWindowSizeOptionHandler p [] w
      in (p, w))"

subsection \<open>Connections behind pointers\<close>

text \<open>
  The caller holds a \<^verbatim>\<open>*Connection\<close>. A store maps addresses to the structs they
  hold; \<open>fresh\<close> is the next unused address. \<^verbatim>\<open>Close\<close> has a pointer receiver and
  writes through it. \<^verbatim>\<open>Read\<close> has a value receiver: the call \<^verbatim>\<open>c.Read(b)\<close> copies
  \<^verbatim>\<open>*c\<close> into the new variable \<^verbatim>\<open>p\<close>, here the cell at \<open>fresh\<close>, and everything
  \<^verbatim>\<open>Read\<close> does to the connection it does to that cell. A \<^verbatim>\<open>nil\<close> or dangling pointer
  panics.
\<close>

record store =
  cells :: "nat \<rightharpoonup> Connection"
  fresh :: nat

definition Close_at :: "nat \<Rightarrow> store \<Rightarrow> world \<Rightarrow> ret \<times> store \<times> world" where
  "Close_at a s w =
     (case cells s a of
        None \<Rightarrow> (Panic, s, w)
      | Some c \<Rightarrow>
          (let (err, c', w') = Close c w
           in (Ret err, s\<lparr>cells := (cells s)(a \<mapsto> c')\<rparr>, w')))"

definition Read_at :: "nat \<Rightarrow> nat \<Rightarrow> script \<Rightarrow> store \<Rightarrow> world \<Rightarrow> read_ret \<times> script \<times> store \<times> world" where
  "Read_at a blen rs s w =
     (case cells s a of
        None \<Rightarrow> (Panics, rs, s, w)
      | Some c \<Rightarrow>
          (let ap = fresh s;
               (r, rs', p', w') = Read c blen rs w
           in (r, rs', s\<lparr>cells := (cells s)(ap \<mapsto> p'), fresh := Suc ap\<rparr>, w')))"

subsection \<open>Reading the trace\<close>

text \<open>
  \<open>negotiated\<close> gives the buffers of the calls of \<^verbatim>\<open>negotiateOption\<close> in a trace, in
  order. \<open>SB_frames\<close> holds of a trace that consists of writes of sub-negotiation
  frames, which start with \<open>IAC SB\<close>.
\<close>

fun negotiated :: "event list \<Rightarrow> byte list list" where
  "negotiated [] = []"
| "negotiated (EvNegotiate d # es) = d # negotiated es"
| "negotiated (e # es) = negotiated es"

definition SB_frames :: "event list \<Rightarrow> bool" where
  "SB_frames es = list_all (\<lambda>e. case e of EvWrite f \<Rightarrow> take 2 f = [IAC, SB] | _ \<Rightarrow> False) es"

subsection \<open>Values for the examples\<close>

text \<open>
  \<open>conn0\<close> is the connection a successful \<^verbatim>\<open>Connect\<close> returns; \<open>quiet\<close> is a world in
  which every write succeeds, \<^verbatim>\<open>TERM\<close> is not set and nothing has happened yet;
  \<open>failing\<close> is the same world with a transport whose next write fails.
\<close>

definition conn0 :: Connection where
  "conn0 = projr (Connect None)"

definition quiet :: world where
  "quiet = \<lparr>wres = [], term_env = None, cres = None, trace = []\<rparr>"

definition failing :: world where
  "failing = quiet\<lparr>wres := [Some (ErrTransport 1)]\<rparr>"

text \<open>\<open>store0\<close> holds \<open>conn0\<close> at the address 0 and nothing else.\<close>

definition store0 :: store where
  "store0 = \<lparr>cells = [0 \<mapsto> conn0], fresh = 1\<rparr>"

section \<open>Properties\<close>

subsection \<open>The connection after Connect\<close>

lemma conn0_state: "state conn0 = stateData"
  by (simp add: conn0_def Connect_def AddOption_def)

lemma conn0_winSize: "winSize conn0 = []"
  by (simp add: conn0_def Connect_def AddOption_def)

lemma conn0_options_unknown: "options conn0 99 = None"
  by (simp add: conn0_def Connect_def AddOption_def)

lemma conn0_options_IAC: "options conn0 IAC = None"
  by (simp add: conn0_def Connect_def AddOption_def)

lemma conn0_Data: "conn0\<lparr>state := stateData\<rparr> = conn0"
  by (simp add: conn0_def Connect_def AddOption_def)

lemma conn0_options_DO: "options conn0 DO = None"
  by (simp add: conn0_def Connect_def AddOption_def)

lemma conn0_options_NAWS:
  "options conn0 NegotiateAboutWindowSize
     = Some \<lparr>weWill = True, peerDo = True, sbHandler = None,
             doHandler = Some H_negotiateAboutWindowSize\<rparr>"
  by (simp add: conn0_def Connect_def AddOption_def)

lemma conn0_options_Echo:
  "options conn0 Echo
     = Some \<lparr>weWill = False, peerDo = True, sbHandler = None, doHandler = None\<rparr>"
  by (simp add: conn0_def Connect_def AddOption_def)

lemma conn0_options_Binary:
  "options conn0 BinaryTransmission
     = Some \<lparr>weWill = False, peerDo = False, sbHandler = None, doHandler = None\<rparr>"
  by (simp add: conn0_def Connect_def AddOption_def)

lemma conn0_options_SGA:
  "options conn0 SuppressGoAhead
     = Some \<lparr>weWill = True, peerDo = True, sbHandler = None, doHandler = None\<rparr>"
  by (simp add: conn0_def Connect_def AddOption_def)

subsection \<open>The loop\<close>

text \<open>A return from inside the loop is never \<^verbatim>\<open>return nil\<close>.\<close>

lemma processByte_no_early_nil: "fst (processByte b s) \<noteq> Some (Ret None)"
  by (auto simp: processByte_def Let_def
      split: prod.splits streamState.splits ret.splits option.splits)

text \<open>Processing a chunk is processing its first part and, unless that returns early, the rest.\<close>

lemma processCommands_loop_append:
  "processCommands_loop (xs @ ys) s =
     (case processCommands_loop xs s of
        (Ret None, s') \<Rightarrow> processCommands_loop ys s'
      | (r, s') \<Rightarrow> (r, s'))"
proof (induction xs arbitrary: s)
  case Nil
  show ?case by simp
next
  case (Cons b xs)
  obtain ro s' where st: "processByte b s = (ro, s')"
    by (cases "processByte b s")
  show ?case
    using Cons.IH [of s'] st processByte_no_early_nil [of b s]
    by (cases ro) (auto split: ret.splits option.splits)
qed

lemma processByte_plain:
  "b \<noteq> IAC \<Longrightarrow> state p = stateData \<Longrightarrow>
   processByte b (p, cb, out, w) = (None, (p, cb, out @ [b], w))"
  by (simp add: processByte_def)

lemma loop_plain:
  "IAC \<notin> set bs \<Longrightarrow> state p = stateData \<Longrightarrow>
   processCommands_loop bs (p, cb, out, w) = (Ret None, (p, cb, out @ bs, w))"
  by (induction bs arbitrary: out) (simp_all add: processByte_plain)

lemma loop_IAC_IAC:
  "state p = stateData \<Longrightarrow>
   processCommands_loop (IAC # IAC # bs) (p, cb, out, w)
     = processCommands_loop bs (p, cb @ [IAC, IAC], out @ [IAC], w)"
  by (cases p) (simp add: processByte_def)

subsection \<open>The escaped IAC\<close>

text \<open>
  Claim C4. Whenever the loop has reached the state \<open>stateData\<close> after some input
  \<open>pre\<close>, the two bytes \<open>IAC IAC\<close> that follow add exactly one byte 255 to the plain
  data, write nothing, and leave the state \<open>stateData\<close> for the rest of the input. The
  chunk \<open>[72, 255, 255, 116, 101, 108]\<close> gives the plain data
  \<open>[72, 255, 116, 101, 108]\<close>.
\<close>

theorem doubled_IAC_is_one_literal:
  assumes "processCommands_loop pre s = (Ret None, (p', cb', out', w'))"
      and "state p' = stateData"
  shows "processCommands_loop (pre @ IAC # IAC # rest) s
           = processCommands_loop rest (p', cb' @ [IAC, IAC], out' @ [IAC], w')
         \<and> processCommands (c\<lparr>state := stateData\<rparr>) [72, 255, 255, 116, 101, 108] [] v
           = (Ret None, c\<lparr>state := stateData\<rparr>, [72, 255, 116, 101, 108], v)"
proof
  show "processCommands_loop (pre @ IAC # IAC # rest) s
          = processCommands_loop rest (p', cb' @ [IAC, IAC], out' @ [IAC], w')"
    using assms
    by (simp add: processCommands_loop_append loop_IAC_IAC del: processCommands_loop.simps)
next
  show "processCommands (c\<lparr>state := stateData\<rparr>) [72, 255, 255, 116, 101, 108] [] v
          = (Ret None, c\<lparr>state := stateData\<rparr>, [72, 255, 116, 101, 108], v)"
    by (simp add: processCommands_def processByte_def)
qed

theorem doubled_IAC_is_one_literal_witness:
  "processCommands_loop [72] (conn0, [], [], quiet) = (Ret None, (conn0, [], [72], quiet))
   \<and> state conn0 = stateData
   \<and> processCommands_loop ([72] @ IAC # IAC # [116]) (conn0, [], [], quiet)
       = (Ret None, (conn0, [IAC, IAC], [72, 255, 116], quiet))"
proof -
  have run: "processCommands_loop [72] (conn0, [], [], quiet) = (Ret None, (conn0, [], [72], quiet))"
    using loop_plain [of "[72]" conn0 "[]" "[]" quiet] by (simp add: conn0_state)
  have "processCommands_loop [116] (conn0, [] @ [IAC, IAC], [72] @ [IAC], quiet)
          = (Ret None, (conn0, [IAC, IAC], [72, 255, 116], quiet))"
    using loop_plain [of "[116]" conn0 "[IAC, IAC]" "[72, 255]" quiet] by (simp add: conn0_state)
  with doubled_IAC_is_one_literal [OF run conn0_state, of "[116]"] run conn0_state
  show ?thesis by simp
qed

subsection \<open>Plain data\<close>

text \<open>
  Claim C5. A chunk with no byte 255, processed in the state \<open>stateData\<close>, is appended
  to the plain data byte for byte; the state stays \<open>stateData\<close> and the world is the
  same: no write, no call of \<^verbatim>\<open>negotiateOption\<close> or of a handler.
\<close>

theorem passthrough_without_IAC:
  assumes "IAC \<notin> set bs"
  shows "processCommands (p\<lparr>state := stateData\<rparr>) bs out w
           = (Ret None, p\<lparr>state := stateData\<rparr>, out @ bs, w)"
  using assms by (simp add: processCommands_def loop_plain)

theorem passthrough_without_IAC_witness:
  "IAC \<notin> set [72, 105, 10]
   \<and> processCommands (conn0\<lparr>state := stateData\<rparr>) [72, 105, 10] [] quiet
       = (Ret None, conn0\<lparr>state := stateData\<rparr>, [72, 105, 10], quiet)"
proof -
  have h: "IAC \<notin> set [72, 105, 10]" by simp
  from passthrough_without_IAC [OF h, of conn0 "[]" quiet] h show ?thesis by simp
qed

subsection \<open>Commands of two bytes\<close>

text \<open>
  Claim C1 (the code does not do what the claim says). \<^verbatim>\<open>negotiateOption\<close> reads
  \<^verbatim>\<open>data[1]\<close> and \<^verbatim>\<open>data[2]\<close> with no check of the length. In the state \<open>stateData\<close>
  the two bytes \<open>IAC\<close>, 241 (the Telnet command NOP) reach the branch that the source
  marks \<^verbatim>\<open>// option code\<close> with a buffer of two bytes, and the read of
  \<^verbatim>\<open>data[2]\<close> panics: processing is not total.
\<close>

theorem IAC_then_command_byte_panics:
  "processCommands (p\<lparr>state := stateData\<rparr>) [IAC, 241] out w
     = (Panic, p\<lparr>state := stateInIAC\<rparr>, out, w\<lparr>trace := trace w @ [EvNegotiate [IAC, 241]]\<rparr>)"
  by (simp add: processCommands_def processByte_def negotiateOption_def Let_def)

subsection \<open>Errors of the reply write\<close>

text \<open>
  Claim C7 (the code does not do what the claim says). With a transport whose next
  write fails, the reply to \<open>IAC DO 99\<close> (an option that is not configured) is
  written, the error of the write is dropped by \<^verbatim>\<open>return nil\<close>, and the rest of the
  chunk is processed: the byte 65 reaches the plain data and \<^verbatim>\<open>processCommands\<close>
  returns \<^verbatim>\<open>nil\<close>. The same happens for \<open>IAC DO 31\<close>, where the error of the reply
  write is overwritten by the result of the option's \<^verbatim>\<open>doHandler\<close>.
\<close>

theorem reply_write_error_is_dropped:
  "processCommands conn0 [IAC, DO, 99, 65] [] failing
     = (Ret None, conn0, [65],
        failing\<lparr>wres := [], trace := [EvNegotiate [IAC, DO, 99], EvWrite [IAC, WONT, 99]]\<rparr>)
   \<and> processCommands conn0 [IAC, DO, 31, 65] [] failing
     = (Ret None, conn0, [65],
        failing\<lparr>wres := [],
          trace := [EvNegotiate [IAC, DO, 31], EvWrite [IAC, WILL, 31],
                    EvHandler H_negotiateAboutWindowSize [IAC, WILL, 31],
                    EvWrite [IAC, SB, 31, IAC, SE]]\<rparr>)"
  by (simp add: processCommands_def processByte_def negotiateOption_def conn0_state
      conn0_options_unknown conn0_options_NAWS conn0_winSize conn_Write_def failing_def quiet_def
      Let_def call_handler_def negotiateAboutWindowSizeOptionHandler_def sendSB_def Write_def)

text \<open>
  The sibling path keeps the error: the reply to \<open>IAC WILL 1\<close> (a configured option)
  fails, \<^verbatim>\<open>processCommands\<close> returns the error without processing the byte 73, and
  \<^verbatim>\<open>Read\<close> returns it with the plain data gathered before.
\<close>

lemma configured_reply_write_error_reaches_Read:
  "Read conn0 10 [([72, IAC, WILL, Echo, 73], None)] failing
     = (Returns 1 [72] (Some (ErrTransport 1)), [], conn0\<lparr>state := stateInIAC\<rparr>,
        failing\<lparr>wres := [], trace := [EvNegotiate [IAC, WILL, Echo], EvWrite [IAC, DO, Echo]]\<rparr>)"
  by (simp add: Read_def conn0_state conn0_options_Echo processCommands_def processByte_def
      negotiateOption_def conn_Write_def Buffer_Read_def failing_def quiet_def Let_def)

subsection \<open>The window size before the first update\<close>

text \<open>
  Claim C9 (the code does not do what the claim says). \<^verbatim>\<open>Connect\<close> leaves
  \<^verbatim>\<open>winSize\<close> empty, and only \<^verbatim>\<open>SetWindowSize\<close> gives it its four bytes. A peer's
  \<open>IAC DO 31\<close> before any update is answered with \<open>IAC WILL 31\<close> and then with the
  frame \<open>IAC SB 31 IAC SE\<close>, which has no payload byte, where the comment on the
  handler gives the frame as \<^verbatim>\<open>IAC SB NAWS <16-bit value> <16-bit value> IAC SE\<close>.
\<close>

theorem NAWS_payload_empty_before_update:
  "length (winSize conn0) = 0
   \<and> processCommands conn0 [IAC, DO, 31] [] quiet
     = (Ret None, conn0, [],
        quiet\<lparr>trace := [EvNegotiate [IAC, DO, 31], EvWrite [IAC, WILL, 31],
                          EvHandler H_negotiateAboutWindowSize [IAC, WILL, 31],
                          EvWrite [IAC, SB, 31, IAC, SE]]\<rparr>)"
  by (simp add: processCommands_def processByte_def negotiateOption_def conn0_state
      conn0_options_NAWS conn0_winSize conn_Write_def quiet_def
      Let_def call_handler_def negotiateAboutWindowSizeOptionHandler_def sendSB_def Write_def)

subsection \<open>What a dispatch adds to the trace\<close>

lemma negotiated_append: "negotiated (xs @ ys) = negotiated xs @ negotiated ys"
  by (induction xs rule: negotiated.induct) simp_all

lemma SB_frames_negotiated: "SB_frames es \<Longrightarrow> negotiated es = []"
  by (induction es rule: negotiated.induct) (simp_all add: SB_frames_def)

lemma SB_frames_no_reply: "SB_frames es \<Longrightarrow> v \<noteq> SB \<Longrightarrow> EvWrite (IAC # v # xs) \<notin> set es"
  by (auto simp: SB_frames_def list_all_iff)

lemma conn_Write_eq:
  "conn_Write d w = (case wres w of [] \<Rightarrow> None | r # rs \<Rightarrow> r,
                     w\<lparr>wres := tl (wres w), trace := trace w @ [EvWrite d]\<rparr>)"
  by (cases "wres w") (simp_all add: conn_Write_def)

lemma sendSB_trace:
  "\<exists>hs. trace (snd (sendSB p opt operation d w)) = trace w @ hs \<and> SB_frames hs"
proof (cases "state p = stateNotReady")
  case True
  then have "trace (snd (sendSB p opt operation d w)) = trace w @ []"
    by (simp add: sendSB_def Write_def Let_def)
  moreover have "SB_frames []" by (simp add: SB_frames_def)
  ultimately show ?thesis by blast
next
  case False
  then have "trace (snd (sendSB p opt operation d w))
       = trace w @ [EvWrite (IAC # SB # opt # (if operation \<noteq> NONE then [operation] else []) @ d @ [IAC, SE])]"
    by (simp add: sendSB_def Write_def Let_def conn_Write_eq)
  moreover have "SB_frames [EvWrite (IAC # SB # opt # (if operation \<noteq> NONE then [operation] else []) @ d @ [IAC, SE])]"
    by (simp add: SB_frames_def)
  ultimately show ?thesis by blast
qed

lemma SB_frames_Nil: "SB_frames []" by (simp add: SB_frames_def)

lemma terminalType_trace:
  "\<exists>hs. trace (snd (terminalTypeOptionHandler p d w)) = trace w @ hs \<and> SB_frames hs"
proof (cases "3 < length d \<and> d ! 3 = SEND \<and> term_env w \<noteq> None")
  case True
  then obtain t where "term_env w = Some t" by auto
  with True have "snd (terminalTypeOptionHandler p d w) = snd (sendSB p TerminalType IS t w)"
    by (simp add: terminalTypeOptionHandler_def Let_def split: prod.splits)
  then show ?thesis using sendSB_trace [of p TerminalType IS t w] by simp
next
  case False
  then have "trace (snd (terminalTypeOptionHandler p d w)) = trace w @ []"
    by (auto simp: terminalTypeOptionHandler_def Let_def split: option.splits)
  then show ?thesis using SB_frames_Nil by blast
qed

lemma terminalSpeed_trace:
  "\<exists>hs. trace (snd (terminalSpeedOptionHandler p d w)) = trace w @ hs \<and> SB_frames hs"
proof (cases "3 < length d \<and> d ! 3 = SEND")
  case True
  then have "snd (terminalSpeedOptionHandler p d w) = snd (sendSB p TerminalSpeed IS speed w)"
    by (simp add: terminalSpeedOptionHandler_def Let_def split: prod.splits)
  then show ?thesis using sendSB_trace [of p TerminalSpeed IS speed w] by simp
next
  case False
  then have "trace (snd (terminalSpeedOptionHandler p d w)) = trace w @ []"
    by (auto simp: terminalSpeedOptionHandler_def Let_def)
  then show ?thesis using SB_frames_Nil by blast
qed

lemma NAWS_trace:
  "\<exists>hs. trace (snd (negotiateAboutWindowSizeOptionHandler p d w)) = trace w @ hs \<and> SB_frames hs"
proof -
  have "snd (negotiateAboutWindowSizeOptionHandler p d w)
          = snd (sendSB p NegotiateAboutWindowSize NONE (winSize p) w)"
    by (simp add: negotiateAboutWindowSizeOptionHandler_def split: prod.splits)
  then show ?thesis using sendSB_trace [of p NegotiateAboutWindowSize NONE "winSize p" w] by simp
qed

lemma call_handler_trace:
  "\<exists>hs. trace (snd (call_handler h p d w)) = trace w @ EvHandler h d # hs \<and> SB_frames hs"
proof (cases h)
  case H_terminalType
  then show ?thesis
    using terminalType_trace [of p d "w\<lparr>trace := trace w @ [EvHandler h d]\<rparr>"]
    by (simp add: call_handler_def Let_def)
next
  case H_negotiateAboutWindowSize
  then show ?thesis
    using NAWS_trace [of p d "w\<lparr>trace := trace w @ [EvHandler h d]\<rparr>"]
    by (simp add: call_handler_def Let_def)
next
  case H_terminalSpeed
  then show ?thesis
    using terminalSpeed_trace [of p d "w\<lparr>trace := trace w @ [EvHandler h d]\<rparr>"]
    by (simp add: call_handler_def Let_def)
qed

lemma conn_Write_trace: "trace (snd (conn_Write d w)) = trace w @ [EvWrite d]"
  by (simp add: conn_Write_eq)

text \<open>What a call of negotiateOption adds to the trace holds one dispatch: its own.\<close>

lemma negotiateOption_trace:
  "\<exists>hs. trace (snd (negotiateOption p d w)) = trace w @ EvNegotiate d # hs \<and> negotiated hs = []"
proof -
  define w1 where "w1 = w\<lparr>trace := trace w @ [EvNegotiate d]\<rparr>"
  have direct: "trace (snd (negotiateOption p d w)) = trace w1 @ es \<Longrightarrow> negotiated es = [] \<Longrightarrow> ?thesis" for es
    by (simp add: w1_def)
  have via: "snd (negotiateOption p d w) = snd (call_handler h p d' w2) \<Longrightarrow> trace w2 = trace w1 @ es
             \<Longrightarrow> negotiated es = [] \<Longrightarrow> ?thesis" for h d' w2 es
  proof -
    assume a: "snd (negotiateOption p d w) = snd (call_handler h p d' w2)"
       and b: "trace w2 = trace w1 @ es" and c: "negotiated es = []"
    obtain hs where hs: "trace (snd (call_handler h p d' w2)) = trace w2 @ EvHandler h d' # hs" "SB_frames hs"
      using call_handler_trace by blast
    have "negotiated (es @ EvHandler h d' # hs) = []"
      using c hs(2) by (simp add: negotiated_append SB_frames_negotiated)
    moreover have "trace (snd (negotiateOption p d w)) = trace w1 @ (es @ EvHandler h d' # hs)"
      using a b hs(1) by simp
    ultimately show ?thesis by (rule direct [rotated])
  qed
  show ?thesis
  proof (cases "length d \<le> 2")
    case True
    then have "trace (snd (negotiateOption p d w)) = trace w1 @ []"
      by (auto simp: negotiateOption_def Let_def w1_def)
    then show ?thesis by (rule direct) simp
  next
    case long: False
    show ?thesis
    proof (cases "options p (d ! 2)")
      case None
      with long have "trace (snd (negotiateOption p d w)) = trace w1 @ []
          \<or> trace (snd (negotiateOption p d w)) = trace w1 @ [EvWrite (d[1 := WONT])]
          \<or> trace (snd (negotiateOption p d w)) = trace w1 @ [EvWrite (d[1 := DONT])]"
        by (simp add: negotiateOption_def Let_def w1_def conn_Write_eq)
      then show ?thesis using direct by fastforce
    next
      case (Some opt)
      show ?thesis
      proof (cases "d ! 1 = DO")
        case True
        define d' where "d' = (if weWill opt then d[1 := WILL] else d[1 := WONT])"
        show ?thesis
        proof (cases "doHandler opt")
          case None
          with long Some True have "trace (snd (negotiateOption p d w)) = trace w1 @ [EvWrite d']"
            by (simp add: negotiateOption_def Let_def w1_def conn_Write_eq d'_def)
          then show ?thesis by (rule direct) simp
        next
          case (Some h)
          with long \<open>options p (d ! 2) = Some opt\<close> True
          have "snd (negotiateOption p d w) = snd (call_handler h p d' (snd (conn_Write d' w1)))"
            by (simp add: negotiateOption_def Let_def w1_def d'_def split: prod.splits)
          moreover have "trace (snd (conn_Write d' w1)) = trace w1 @ [EvWrite d']"
            by (rule conn_Write_trace)
          ultimately show ?thesis by (rule via) simp
        qed
      next
        case notDO: False
        show ?thesis
        proof (cases "d ! 1 = WILL")
          case True
          define d' where "d' = (if peerDo opt then d[1 := DO] else d[1 := DONT])"
          from long Some True have "trace (snd (negotiateOption p d w)) = trace w1 @ [EvWrite d']"
            by (simp add: negotiateOption_def Let_def w1_def conn_Write_eq d'_def)
          then show ?thesis by (rule direct) simp
        next
          case notWILL: False
          show ?thesis
          proof (cases "d ! 1 = SB \<and> sbHandler opt \<noteq> None")
            case True
            then obtain h where h: "sbHandler opt = Some h" by auto
            with long Some True have "snd (negotiateOption p d w) = snd (call_handler h p d w1)"
              by (simp add: negotiateOption_def Let_def w1_def)
            moreover have "trace w1 = trace w1 @ []" by simp
            ultimately show ?thesis by (rule via) simp
          next
            case False
            with long Some notDO notWILL have "trace (snd (negotiateOption p d w)) = trace w1 @ []"
              by (auto simp: negotiateOption_def Let_def w1_def split: option.splits)
            then show ?thesis by (rule direct) simp
          qed
        qed
      qed
    qed
  qed
qed

subsection \<open>The byte that is dispatched\<close>

text \<open>
  Claim C2, as amended. In the state \<open>stateInIAC\<close>, whatever the pending buffer
  holds, a next byte \<open>X\<close> other than SB, WILL, WONT, DO, DONT and IAC is appended to
  the buffer and the buffer is passed to \<^verbatim>\<open>negotiateOption\<close> exactly once; the plain
  data is not touched. What is dispatched is the command \<open>IAC v X\<close> when the buffer
  was \<open>IAC v\<close>. When the call returns \<^verbatim>\<open>nil\<close> the buffer is emptied and the state is
  \<open>stateData\<close>; when it returns an error or panics, \<^verbatim>\<open>processCommands\<close> returns that
  result and the state stays \<open>stateInIAC\<close>.
\<close>

theorem option_code_completes_command:
  assumes "X \<notin> {SB, WILL, WONT, DO, DONT, IAC}"
      and "state p = stateInIAC"
      and "processByte X (p, cb, out, w) = (r, p', cb', out', w')"
  shows "negotiated (trace w') = negotiated (trace w) @ [cb @ [X]]
         \<and> (cb = [IAC, v] \<longrightarrow> negotiated (trace w') = negotiated (trace w) @ [[IAC, v, X]])
         \<and> w' = snd (negotiateOption p (cb @ [X]) w)
         \<and> out' = out
         \<and> (case fst (negotiateOption p (cb @ [X]) w) of
               Ret None \<Rightarrow> r = None \<and> p' = p\<lparr>state := stateData\<rparr> \<and> cb' = []
             | e \<Rightarrow> r = Some e \<and> p' = p)"
proof -
  obtain e w1 where n: "negotiateOption p (cb @ [X]) w = (e, w1)"
    by (cases "negotiateOption p (cb @ [X]) w")
  obtain hs where hs: "trace w1 = trace w @ EvNegotiate (cb @ [X]) # hs" "negotiated hs = []"
    using negotiateOption_trace [of p "cb @ [X]" w] n by auto
  have once: "negotiated (trace w1) = negotiated (trace w) @ [cb @ [X]]"
    using hs by (simp add: negotiated_append)
  have step: "processByte X (p, cb, out, w) =
      (case e of Ret None \<Rightarrow> (None, (p\<lparr>state := stateData\<rparr>, [], out, w1))
               | _ \<Rightarrow> (Some e, (p, cb @ [X], out, w1)))"
    using assms(1,2) n by (simp add: processByte_def split: ret.splits option.splits)
  have w': "w' = w1" and out': "out' = out"
    using assms(3) step by (auto split: ret.splits option.splits)
  have res: "(case e of
               Ret None \<Rightarrow> r = None \<and> p' = p\<lparr>state := stateData\<rparr> \<and> cb' = []
             | e \<Rightarrow> r = Some e \<and> p' = p)"
    using assms(3) step by (auto split: ret.splits option.splits)
  from once w' out' res n show ?thesis by auto
qed

theorem option_code_completes_command_witness:
  "99 \<notin> {SB, WILL, WONT, DO, DONT, IAC}
   \<and> state (conn0\<lparr>state := stateInIAC\<rparr>) = stateInIAC
   \<and> processByte 99 (conn0\<lparr>state := stateInIAC\<rparr>, [IAC, DO], [], quiet)
       = (None, conn0\<lparr>state := stateData\<rparr>, [], [],
          quiet\<lparr>trace := [EvNegotiate [IAC, DO, 99], EvWrite [IAC, WONT, 99]]\<rparr>)
   \<and> negotiated (trace (quiet\<lparr>trace := [EvNegotiate [IAC, DO, 99], EvWrite [IAC, WONT, 99]]\<rparr>))
       = negotiated (trace quiet) @ [[IAC, DO, 99]]"
proof -
  have x: "99 \<notin> {SB, WILL, WONT, DO, DONT, IAC}"
    and st: "state (conn0\<lparr>state := stateInIAC\<rparr>) = stateInIAC"
    by simp_all
  have step: "processByte 99 (conn0\<lparr>state := stateInIAC\<rparr>, [IAC, DO], [], quiet)
       = (None, conn0\<lparr>state := stateData\<rparr>, [], [],
          quiet\<lparr>trace := [EvNegotiate [IAC, DO, 99], EvWrite [IAC, WONT, 99]]\<rparr>)"
    by (simp add: processByte_def negotiateOption_def conn0_options_unknown conn_Write_def quiet_def Let_def)
  from option_code_completes_command [OF x st step, of DO]
  have "negotiated (trace (quiet\<lparr>trace := [EvNegotiate [IAC, DO, 99], EvWrite [IAC, WONT, 99]]\<rparr>))
       = negotiated (trace quiet) @ [[IAC, DO, 99]]"
    by blast
  with x st step show ?thesis by blast
qed

text \<open>
  The claim as stated fails: after \<open>IAC DO\<close> the byte DO is taken as a verb again,
  nothing is dispatched and the state stays \<open>stateInIAC\<close>; the byte 99 that follows
  is then dispatched with four bytes, and the reply is \<open>IAC WONT DO 99\<close>; and when
  the dispatch of \<open>IAC WILL 1\<close> fails on the transport, the state stays
  \<open>stateInIAC\<close> and the buffer is not emptied.
\<close>

theorem verb_after_verb_is_not_an_option_code:
  "processByte DO (conn0\<lparr>state := stateInIAC\<rparr>, [IAC, DO], [], quiet)
     = (None, conn0\<lparr>state := stateInIAC\<rparr>, [IAC, DO, DO], [], quiet)
   \<and> processByte 99 (conn0\<lparr>state := stateInIAC\<rparr>, [IAC, DO, DO], [], quiet)
     = (None, conn0\<lparr>state := stateData\<rparr>, [], [],
        quiet\<lparr>trace := [EvNegotiate [IAC, DO, DO, 99], EvWrite [IAC, WONT, DO, 99]]\<rparr>)
   \<and> processByte Echo (conn0\<lparr>state := stateInIAC\<rparr>, [IAC, WILL], [], failing)
     = (Some (Ret (Some (ErrTransport 1))), conn0\<lparr>state := stateInIAC\<rparr>, [IAC, WILL, Echo], [],
        failing\<lparr>wres := [], trace := [EvNegotiate [IAC, WILL, Echo], EvWrite [IAC, DO, Echo]]\<rparr>)"
  by (simp add: processByte_def negotiateOption_def conn0_options_Echo conn0_options_DO conn_Write_def
      failing_def quiet_def Let_def)

subsection \<open>The replies to DO and WILL\<close>

lemma loop_command:
  assumes "v \<in> {WILL, WONT, DO, DONT}"
      and "X \<notin> {SB, WILL, WONT, DO, DONT, IAC}"
  shows "processCommands_loop (IAC # v # X # rest) (p\<lparr>state := stateData\<rparr>, [], out, w) =
     (case negotiateOption (p\<lparr>state := stateInIAC\<rparr>) [IAC, v, X] w of
        (Ret None, w') \<Rightarrow> processCommands_loop rest (p\<lparr>state := stateData\<rparr>, [], out, w')
      | (r, w') \<Rightarrow> (r, (p\<lparr>state := stateInIAC\<rparr>, [IAC, v, X], out, w')))"
  using assms by (auto simp: processByte_def split: prod.splits ret.splits option.splits)

lemma loop_command_in_chunk:
  assumes "v \<in> {WILL, WONT, DO, DONT}"
      and "X \<notin> {SB, WILL, WONT, DO, DONT, IAC}"
      and "processCommands_loop pre s = (Ret None, (p\<lparr>state := stateData\<rparr>, [], out, w))"
  shows "processCommands_loop (pre @ [IAC, v, X] @ rest) s =
     (case negotiateOption (p\<lparr>state := stateInIAC\<rparr>) [IAC, v, X] w of
        (Ret None, w') \<Rightarrow> processCommands_loop rest (p\<lparr>state := stateData\<rparr>, [], out, w')
      | (r, w') \<Rightarrow> (r, (p\<lparr>state := stateInIAC\<rparr>, [IAC, v, X], out, w')))"
  using loop_command [OF assms(1,2), of rest p out w] assms(3)
  by (simp add: processCommands_loop_append del: processCommands_loop.simps)

text \<open>The command's last byte, and what follows it.\<close>

lemma command_in_chunk:
  assumes "v \<in> {WILL, WONT, DO, DONT}"
      and "X \<notin> {SB, WILL, WONT, DO, DONT, IAC}"
      and "processCommands_loop pre s = (Ret None, (p\<lparr>state := stateData\<rparr>, [], out, w))"
      and "processCommands_loop (pre @ [IAC, v, X]) s = (r, p', cb', out', w')"
  shows "r = fst (negotiateOption (p\<lparr>state := stateInIAC\<rparr>) [IAC, v, X] w)"
    and "w' = snd (negotiateOption (p\<lparr>state := stateInIAC\<rparr>) [IAC, v, X] w)"
    and "out' = out"
    and "processCommands_loop (pre @ [IAC, v, X] @ rest) s
           = (if r = Ret None then processCommands_loop rest (p\<lparr>state := stateData\<rparr>, [], out, w')
              else (r, p', cb', out', w'))"
proof -
  obtain e w1 where n: "negotiateOption (p\<lparr>state := stateInIAC\<rparr>) [IAC, v, X] w = (e, w1)"
    by (cases "negotiateOption (p\<lparr>state := stateInIAC\<rparr>) [IAC, v, X] w")
  have here: "(r, p', cb', out', w') =
       (case e of Ret None \<Rightarrow> (Ret None, (p\<lparr>state := stateData\<rparr>, [], out, w1))
                | _ \<Rightarrow> (e, (p\<lparr>state := stateInIAC\<rparr>, [IAC, v, X], out, w1)))"
    using loop_command_in_chunk [OF assms(1-3), of "[]"] assms(4) n
    by (simp split: ret.splits option.splits del: processCommands_loop.simps(2))
  then have r: "r = e" and w': "w' = w1" and out': "out' = out"
    by (auto split: ret.splits option.splits)
  show "r = fst (negotiateOption (p\<lparr>state := stateInIAC\<rparr>) [IAC, v, X] w)"
    and "w' = snd (negotiateOption (p\<lparr>state := stateInIAC\<rparr>) [IAC, v, X] w)"
    and "out' = out"
    using r w' out' n by simp_all
  show "processCommands_loop (pre @ [IAC, v, X] @ rest) s
           = (if r = Ret None then processCommands_loop rest (p\<lparr>state := stateData\<rparr>, [], out, w')
              else (r, p', cb', out', w'))"
    using loop_command_in_chunk [OF assms(1-3), of rest] n here r w'
    by (auto split: ret.splits option.splits simp del: processCommands_loop.simps(2))
qed


lemma negotiate_DO_unconfigured:
  "options p X = None \<Longrightarrow>
   negotiateOption p [IAC, DO, X] w
     = (Ret None, w\<lparr>wres := tl (wres w),
                    trace := trace w @ [EvNegotiate [IAC, DO, X], EvWrite [IAC, WONT, X]]\<rparr>)"
  by (simp add: negotiateOption_def Let_def conn_Write_eq)

lemma negotiate_DO_configured:
  "options p X = Some opt \<Longrightarrow>
   \<exists>hs. trace (snd (negotiateOption p [IAC, DO, X] w))
          = trace w @ EvNegotiate [IAC, DO, X] # EvWrite [IAC, if weWill opt then WILL else WONT, X] # hs
       \<and> EvWrite [IAC, if weWill opt then WILL else WONT, X] \<notin> set hs
       \<and> (doHandler opt = None \<longrightarrow> hs = [])"
proof (cases "doHandler opt")
  case None
  assume "options p X = Some opt"
  with None have "trace (snd (negotiateOption p [IAC, DO, X] w))
      = trace w @ EvNegotiate [IAC, DO, X] # EvWrite [IAC, if weWill opt then WILL else WONT, X] # []"
    by (simp add: negotiateOption_def Let_def conn_Write_eq)
  then show ?thesis by (intro exI [of _ "[]"]) simp
next
  case (Some h)
  assume c: "options p X = Some opt"
  define reply where "reply = [IAC, if weWill opt then WILL else WONT, X]"
  define w2 where "w2 = snd (conn_Write reply (w\<lparr>trace := trace w @ [EvNegotiate [IAC, DO, X]]\<rparr>))"
  have "snd (negotiateOption p [IAC, DO, X] w) = snd (call_handler h p reply w2)"
    using c Some by (simp add: negotiateOption_def Let_def reply_def w2_def split: prod.splits)
  moreover obtain fs where fs: "trace (snd (call_handler h p reply w2)) = trace w2 @ EvHandler h reply # fs"
      "SB_frames fs"
    using call_handler_trace by blast
  moreover have "trace w2 = trace w @ [EvNegotiate [IAC, DO, X], EvWrite reply]"
    by (simp add: w2_def conn_Write_eq)
  moreover have "EvWrite reply \<notin> set fs"
    using SB_frames_no_reply [OF fs(2), of "if weWill opt then WILL else WONT" "[X]"]
    by (simp add: reply_def)
  ultimately have "trace (snd (negotiateOption p [IAC, DO, X] w))
        = trace w @ EvNegotiate [IAC, DO, X] # EvWrite reply # (EvHandler h reply # fs)
      \<and> EvWrite reply \<notin> set (EvHandler h reply # fs)"
    by simp
  with Some show ?thesis unfolding reply_def by (intro exI [of _ "EvHandler h _ # fs"]) simp
qed

lemma negotiate_WILL_configured:
  "options p X = Some opt \<Longrightarrow>
   trace (snd (negotiateOption p [IAC, WILL, X] w))
     = trace w @ [EvNegotiate [IAC, WILL, X], EvWrite [IAC, if peerDo opt then DO else DONT, X]]"
  by (simp add: negotiateOption_def Let_def conn_Write_eq)

lemma negotiate_WILL_unconfigured:
  "options p X = None \<Longrightarrow>
   trace (snd (negotiateOption p [IAC, WILL, X] w))
     = trace w @ [EvNegotiate [IAC, WILL, X], EvWrite [IAC, DONT, X]]"
  by (simp add: negotiateOption_def Let_def conn_Write_eq)

text \<open>
  Claim C3, as amended. Let a chunk be processed by one call of
  \<^verbatim>\<open>processCommands\<close>, and let its first part \<open>pre\<close> leave the loop in the state
  \<open>stateData\<close> with an empty pending buffer. For a command \<open>IAC DO X\<close> or
  \<open>IAC WILL X\<close> that follows in the same chunk, with \<open>X\<close> other than SB, WILL, WONT,
  DO, DONT and IAC, what the three bytes add to the trace is:
  \<^item> DO, \<open>X\<close> not configured: one dispatch, one write \<open>IAC WONT X\<close>, no handler call,
    result \<^verbatim>\<open>nil\<close>;
  \<^item> DO, \<open>X\<close> configured: the write \<open>IAC WILL X\<close> if \<open>weWill\<close> and \<open>IAC WONT X\<close>
    otherwise, exactly once; nothing else happens when the option has no
    \<^verbatim>\<open>doHandler\<close>;
  \<^item> WILL, \<open>X\<close> configured with \<open>peerDo\<close>: exactly the write \<open>IAC DO X\<close>;
  \<^item> WILL, \<open>X\<close> not configured or \<open>peerDo\<close> false: exactly the write \<open>IAC DONT X\<close>.

  The plain data is not touched, and whatever follows the command in the chunk is
  processed from the state \<open>stateData\<close> with an empty buffer when the dispatch
  returned \<^verbatim>\<open>nil\<close>, and not at all when it failed.
\<close>

theorem negotiation_replies:
  assumes "X \<notin> {SB, WILL, WONT, DO, DONT, IAC}"
      and "processCommands_loop pre s = (Ret None, (p\<lparr>state := stateData\<rparr>, [], out, w))"
      and "processCommands_loop (pre @ [IAC, DO, X]) s = (rD, pD, cbD, outD, wD)"
      and "processCommands_loop (pre @ [IAC, WILL, X]) s = (rW, pW, cbW, outW, wW)"
  shows "(options p X = None \<longrightarrow>
            rD = Ret None
            \<and> wD = w\<lparr>wres := tl (wres w),
                     trace := trace w @ [EvNegotiate [IAC, DO, X], EvWrite [IAC, WONT, X]]\<rparr>)
       \<and> (options p X = Some opt \<longrightarrow>
            (\<exists>hs. trace wD = trace w @ EvNegotiate [IAC, DO, X]
                                # EvWrite [IAC, if weWill opt then WILL else WONT, X] # hs
                  \<and> EvWrite [IAC, if weWill opt then WILL else WONT, X] \<notin> set hs
                  \<and> (doHandler opt = None \<longrightarrow> hs = [])))
       \<and> (options p X = Some opt \<and> peerDo opt \<longrightarrow>
            trace wW = trace w @ [EvNegotiate [IAC, WILL, X], EvWrite [IAC, DO, X]])
       \<and> (options p X = None \<or> (options p X = Some opt \<and> \<not> peerDo opt) \<longrightarrow>
            trace wW = trace w @ [EvNegotiate [IAC, WILL, X], EvWrite [IAC, DONT, X]])
       \<and> outD = out \<and> outW = out
       \<and> processCommands_loop (pre @ [IAC, DO, X] @ rest) s
           = (if rD = Ret None then processCommands_loop rest (p\<lparr>state := stateData\<rparr>, [], out, wD)
              else (rD, pD, cbD, outD, wD))
       \<and> processCommands_loop (pre @ [IAC, WILL, X] @ rest) s
           = (if rW = Ret None then processCommands_loop rest (p\<lparr>state := stateData\<rparr>, [], out, wW)
              else (rW, pW, cbW, outW, wW))"
proof -
  have d: "DO \<in> {WILL, WONT, DO, DONT}" and wl: "WILL \<in> {WILL, WONT, DO, DONT}"
    by simp_all
  note D = command_in_chunk [OF d assms(1,2,3)]
  note W = command_in_chunk [OF wl assms(1,2,4)]
  have o: "options (p\<lparr>state := stateInIAC\<rparr>) X = options p X"
    by simp
  have c1: "options p X = None \<longrightarrow>
            rD = Ret None
            \<and> wD = w\<lparr>wres := tl (wres w),
                     trace := trace w @ [EvNegotiate [IAC, DO, X], EvWrite [IAC, WONT, X]]\<rparr>"
    using D(1,2) negotiate_DO_unconfigured [of "p\<lparr>state := stateInIAC\<rparr>" X w] o by simp
  have c2: "options p X = Some opt \<longrightarrow>
            (\<exists>hs. trace wD = trace w @ EvNegotiate [IAC, DO, X]
                                # EvWrite [IAC, if weWill opt then WILL else WONT, X] # hs
                  \<and> EvWrite [IAC, if weWill opt then WILL else WONT, X] \<notin> set hs
                  \<and> (doHandler opt = None \<longrightarrow> hs = []))"
    using D(2) negotiate_DO_configured [of "p\<lparr>state := stateInIAC\<rparr>" X opt w] o by simp
  have c3: "options p X = Some opt \<and> peerDo opt \<longrightarrow>
            trace wW = trace w @ [EvNegotiate [IAC, WILL, X], EvWrite [IAC, DO, X]]"
    using W(2) negotiate_WILL_configured [of "p\<lparr>state := stateInIAC\<rparr>" X opt w] o by simp
  have c4: "options p X = None \<or> (options p X = Some opt \<and> \<not> peerDo opt) \<longrightarrow>
            trace wW = trace w @ [EvNegotiate [IAC, WILL, X], EvWrite [IAC, DONT, X]]"
    using W(2) negotiate_WILL_configured [of "p\<lparr>state := stateInIAC\<rparr>" X opt w]
      negotiate_WILL_unconfigured [of "p\<lparr>state := stateInIAC\<rparr>" X w] o by auto
  from c1 c2 c3 c4 D(3) W(3) D(4) [of rest] W(4) [of rest]
  show ?thesis by (intro conjI)
qed

theorem negotiation_replies_witness:
  "99 \<notin> {SB, WILL, WONT, DO, DONT, IAC}
   \<and> processCommands_loop [72] (conn0, [], [], quiet)
       = (Ret None, conn0\<lparr>state := stateData\<rparr>, [], [72], quiet)
   \<and> processCommands_loop ([72] @ [IAC, DO, 99]) (conn0, [], [], quiet)
       = (Ret None, conn0, [], [72],
          quiet\<lparr>trace := [EvNegotiate [IAC, DO, 99], EvWrite [IAC, WONT, 99]]\<rparr>)
   \<and> processCommands_loop ([72] @ [IAC, WILL, 99]) (conn0, [], [], quiet)
       = (Ret None, conn0, [], [72],
          quiet\<lparr>trace := [EvNegotiate [IAC, WILL, 99], EvWrite [IAC, DONT, 99]]\<rparr>)
   \<and> options conn0 99 = None
   \<and> processCommands_loop ([72] @ [IAC, DO, 99] @ [73]) (conn0, [], [], quiet)
       = (Ret None, conn0, [], [72, 73],
          quiet\<lparr>trace := [EvNegotiate [IAC, DO, 99], EvWrite [IAC, WONT, 99]]\<rparr>)
   \<and> SuppressGoAhead \<notin> {SB, WILL, WONT, DO, DONT, IAC}
   \<and> processCommands_loop ([72] @ [IAC, DO, SuppressGoAhead]) (conn0, [], [], quiet)
       = (Ret None, conn0, [], [72],
          quiet\<lparr>trace := [EvNegotiate [IAC, DO, SuppressGoAhead], EvWrite [IAC, WILL, SuppressGoAhead]]\<rparr>)
   \<and> processCommands_loop ([72] @ [IAC, WILL, SuppressGoAhead]) (conn0, [], [], quiet)
       = (Ret None, conn0, [], [72],
          quiet\<lparr>trace := [EvNegotiate [IAC, WILL, SuppressGoAhead], EvWrite [IAC, DO, SuppressGoAhead]]\<rparr>)
   \<and> options conn0 SuppressGoAhead
       = Some \<lparr>weWill = True, peerDo = True, sbHandler = None, doHandler = None\<rparr>
   \<and> processCommands_loop ([72] @ [IAC, WILL, SuppressGoAhead] @ [73]) (conn0, [], [], quiet)
       = (Ret None, conn0, [], [72, 73],
          quiet\<lparr>trace := [EvNegotiate [IAC, WILL, SuppressGoAhead], EvWrite [IAC, DO, SuppressGoAhead]]\<rparr>)"
proof -
  have x: "99 \<notin> {SB, WILL, WONT, DO, DONT, IAC}"
    and y: "SuppressGoAhead \<notin> {SB, WILL, WONT, DO, DONT, IAC}"
    by simp_all
  have pre: "processCommands_loop [72] (conn0, [], [], quiet)
       = (Ret None, conn0\<lparr>state := stateData\<rparr>, [], [72], quiet)"
    by (simp add: processByte_def conn0_state conn0_Data)
  have d99: "processCommands_loop ([72] @ [IAC, DO, 99]) (conn0, [], [], quiet)
       = (Ret None, conn0, [], [72],
          quiet\<lparr>trace := [EvNegotiate [IAC, DO, 99], EvWrite [IAC, WONT, 99]]\<rparr>)"
    by (simp add: processByte_def negotiateOption_def conn0_state conn0_Data conn0_options_unknown
        conn_Write_def quiet_def Let_def)
  have w99: "processCommands_loop ([72] @ [IAC, WILL, 99]) (conn0, [], [], quiet)
       = (Ret None, conn0, [], [72],
          quiet\<lparr>trace := [EvNegotiate [IAC, WILL, 99], EvWrite [IAC, DONT, 99]]\<rparr>)"
    by (simp add: processByte_def negotiateOption_def conn0_state conn0_Data conn0_options_unknown
        conn_Write_def quiet_def Let_def)
  have d3: "processCommands_loop ([72] @ [IAC, DO, SuppressGoAhead]) (conn0, [], [], quiet)
       = (Ret None, conn0, [], [72],
          quiet\<lparr>trace := [EvNegotiate [IAC, DO, SuppressGoAhead], EvWrite [IAC, WILL, SuppressGoAhead]]\<rparr>)"
    by (simp add: processByte_def negotiateOption_def conn0_state conn0_Data conn0_options_SGA
        conn_Write_def quiet_def Let_def)
  have w3: "processCommands_loop ([72] @ [IAC, WILL, SuppressGoAhead]) (conn0, [], [], quiet)
       = (Ret None, conn0, [], [72],
          quiet\<lparr>trace := [EvNegotiate [IAC, WILL, SuppressGoAhead], EvWrite [IAC, DO, SuppressGoAhead]]\<rparr>)"
    by (simp add: processByte_def negotiateOption_def conn0_state conn0_Data conn0_options_SGA
        conn_Write_def quiet_def Let_def)
  have plain: "processCommands_loop [73] (conn0\<lparr>state := stateData\<rparr>, [], [72], v)
       = (Ret None, conn0, [], [72, 73], v)" for v
    by (simp add: processByte_def conn0_Data conn0_state)
  from negotiation_replies [OF x pre d99 w99, where rest = "[73]"]
  have a: "processCommands_loop ([72] @ [IAC, DO, 99] @ [73]) (conn0, [], [], quiet)
       = (Ret None, conn0, [], [72, 73],
          quiet\<lparr>trace := [EvNegotiate [IAC, DO, 99], EvWrite [IAC, WONT, 99]]\<rparr>)"
    using plain by (simp del: processCommands_loop.simps append.simps)
  from negotiation_replies [OF y pre d3 w3, where rest = "[73]"]
  have b: "processCommands_loop ([72] @ [IAC, WILL, SuppressGoAhead] @ [73]) (conn0, [], [], quiet)
       = (Ret None, conn0, [], [72, 73],
          quiet\<lparr>trace := [EvNegotiate [IAC, WILL, SuppressGoAhead], EvWrite [IAC, DO, SuppressGoAhead]]\<rparr>)"
    using plain by (simp del: processCommands_loop.simps append.simps)
  from x y pre d99 w99 d3 w3 a b conn0_options_unknown conn0_options_SGA
  show ?thesis by (intro conjI)
qed

text \<open>
  The claim as stated fails for \<open>X = 255\<close>: the option 255 is not configured, and
  \<open>IAC DO 255\<close> in the state \<open>stateData\<close> writes no reply; the last two bytes are
  read as an escaped 255 of the plain data.
\<close>

theorem DO_IAC_gets_no_reply:
  "options conn0 IAC = None
   \<and> processCommands conn0 [IAC, DO, IAC] [] quiet = (Ret None, conn0, [IAC], quiet)"
  by (simp add: processCommands_def processByte_def conn0_options_IAC conn0_state)

text \<open>
  The pending buffer matters: the branch for \<open>IAC IAC\<close> does not empty it, as the
  two dispatch branches do with \<^verbatim>\<open>commandBuffer[:0]\<close>. A command that follows an
  escaped 255 in the same chunk is dispatched behind the two stale bytes, so
  \<^verbatim>\<open>data[1]\<close> is 255 and \<^verbatim>\<open>negotiateOption\<close> does nothing: \<open>IAC DO 99\<close> gets no
  reply.
\<close>

lemma stale_buffer_after_escape:
  "processCommands conn0 [IAC, IAC, IAC, DO, 99] [] quiet
     = (Ret None, conn0, [IAC], quiet\<lparr>trace := [EvNegotiate [IAC, IAC, IAC, DO, 99]]\<rparr>)"
  by (simp add: processCommands_def processByte_def negotiateOption_def conn0_state quiet_def Let_def)

text \<open>
  So does the chunk: \<^verbatim>\<open>commandBuffer\<close> is a local of \<^verbatim>\<open>processCommands\<close>, and the
  state lives in the connection. When one \<^verbatim>\<open>Read\<close> gets \<open>IAC DO\<close> and \<open>99\<close> from two
  reads of the transport, the second call of \<^verbatim>\<open>processCommands\<close> starts in the state
  \<open>stateInIAC\<close> with an empty buffer, dispatches the one byte 99, and
  \<^verbatim>\<open>data[1]\<close> panics.
\<close>

lemma command_split_over_two_reads_panics:
  "fst (Read conn0 10 [([IAC, DO], None), ([99], None)] quiet) = Panics"
  by (simp add: Read_def conn0_state processCommands_def processByte_def negotiateOption_def
      Buffer_Read_def Let_def)

subsection \<open>The window-size update\<close>

text \<open>The two bytes that \<^verbatim>\<open>PutUint16\<close> stores for \<^verbatim>\<open>uint16(n)\<close>.\<close>

lemma hi_byte: "(ucast (drop_bit 8 (word_of_int n :: 16 word)) :: byte) = word_of_int (n div 256)"
proof -
  have "n div 256 = drop_bit 8 n" by (simp add: drop_bit_eq_div)
  then show ?thesis
    by (intro bit_word_eqI) (auto simp: bit_simps)
qed

lemma lo_byte: "(ucast (word_of_int n :: 16 word) :: byte) = word_of_int (n mod 256)"
proof -
  have "n mod 256 = take_bit 8 n" by (simp add: take_bit_eq_mod)
  then show ?thesis
    by (intro bit_word_eqI) (auto simp: bit_simps)
qed

lemma unat_byte: "0 \<le> k \<Longrightarrow> k < 256 \<Longrightarrow> unat (word_of_int k :: byte) = nat k"
  by (simp add: unat_eq_nat_uint uint_word_of_int take_bit_eq_mod)

lemma PutUint16_two: "PutUint16 [a, b] v = [ucast (drop_bit 8 v), ucast v]"
  by (simp add: PutUint16_def)

lemma SetWindowSize_eq:
  "SetWindowSize p width height w =
     (let ws = [word_of_int (width div 256), word_of_int (width mod 256),
                word_of_int (height div 256), word_of_int (height mod 256)];
          p' = p\<lparr>winSize := ws\<rparr>
      in (p', snd (sendSB p' NegotiateAboutWindowSize NONE ws w)))"
proof (cases "length (winSize p) = 4")
  case True
  then obtain a b c d where ws: "winSize p = [a, b, c, d]"
    by (auto simp: length_Suc_conv numeral_eq_Suc)
  show ?thesis
    by (simp add: SetWindowSize_def Let_def ws PutUint16_two hi_byte lo_byte
        negotiateAboutWindowSizeOptionHandler_def split: prod.splits)
next
  case False
  have r: "replicate 4 (0::byte) = [0, 0, 0, 0]"
    by (simp add: numeral_eq_Suc)
  from False show ?thesis
    by (simp add: SetWindowSize_def Let_def r PutUint16_two hi_byte lo_byte
        negotiateAboutWindowSizeOptionHandler_def split: prod.splits)
qed

text \<open>
  Claim C6, as amended. On a connection that is not in the state \<open>stateNotReady\<close>,
  \<^verbatim>\<open>SetWindowSize(80, 24)\<close> stores \<open>[0, 80, 0, 24]\<close> and
  makes one transport write, of \<open>[255, 250, 31, 0, 80, 0, 24, 255, 240]\<close>. For every
  width and height from 0 to 65535 the stored bytes are the high and the low byte
  of the width, then of the height, and the one write is \<open>IAC SB 31\<close>, these four
  bytes, \<open>IAC SE\<close>, with no operation byte.
\<close>

theorem SetWindowSize_sends_frame:
  assumes "state p \<noteq> stateNotReady"
      and "0 \<le> width" and "width \<le> 65535" and "0 \<le> height" and "height \<le> 65535"
  shows "SetWindowSize p 80 24 w
           = (p\<lparr>winSize := [0, 80, 0, 24]\<rparr>,
              w\<lparr>wres := tl (wres w),
                trace := trace w @ [EvWrite [255, 250, 31, 0, 80, 0, 24, 255, 240]]\<rparr>)
         \<and> (\<exists>ws. SetWindowSize p width height w
                  = (p\<lparr>winSize := ws\<rparr>,
                     w\<lparr>wres := tl (wres w), trace := trace w @ [EvWrite ([IAC, SB, 31] @ ws @ [IAC, SE])]\<rparr>)
                \<and> map unat ws = [nat (width div 256), nat (width mod 256),
                                  nat (height div 256), nat (height mod 256)])"
proof
  show "SetWindowSize p 80 24 w
           = (p\<lparr>winSize := [0, 80, 0, 24]\<rparr>,
              w\<lparr>wres := tl (wres w),
                trace := trace w @ [EvWrite [255, 250, 31, 0, 80, 0, 24, 255, 240]]\<rparr>)"
    using assms(1) by (simp add: SetWindowSize_eq sendSB_def Write_def conn_Write_eq Let_def)
next
  define ws :: "byte list" where
    "ws = [word_of_int (width div 256), word_of_int (width mod 256),
           word_of_int (height div 256), word_of_int (height mod 256)]"
  have "SetWindowSize p width height w
          = (p\<lparr>winSize := ws\<rparr>,
             w\<lparr>wres := tl (wres w), trace := trace w @ [EvWrite ([IAC, SB, 31] @ ws @ [IAC, SE])]\<rparr>)"
    using assms(1) by (simp add: SetWindowSize_eq sendSB_def Write_def conn_Write_eq Let_def ws_def)
  moreover have "map unat ws = [nat (width div 256), nat (width mod 256),
                                  nat (height div 256), nat (height mod 256)]"
    using assms(2-5) by (simp add: ws_def unat_byte)
  ultimately show "\<exists>ws. SetWindowSize p width height w
                  = (p\<lparr>winSize := ws\<rparr>,
                     w\<lparr>wres := tl (wres w), trace := trace w @ [EvWrite ([IAC, SB, 31] @ ws @ [IAC, SE])]\<rparr>)
                \<and> map unat ws = [nat (width div 256), nat (width mod 256),
                                  nat (height div 256), nat (height mod 256)]"
    by (intro exI [of _ ws] conjI)
qed

theorem SetWindowSize_sends_frame_witness:
  "state conn0 \<noteq> stateNotReady \<and> (0::int) \<le> 132 \<and> (132::int) \<le> 65535 \<and> (0::int) \<le> 300 \<and> (300::int) \<le> 65535
   \<and> SetWindowSize conn0 80 24 quiet
       = (conn0\<lparr>winSize := [0, 80, 0, 24]\<rparr>,
          quiet\<lparr>trace := [EvWrite [255, 250, 31, 0, 80, 0, 24, 255, 240]]\<rparr>)
   \<and> (\<exists>ws. SetWindowSize conn0 132 300 quiet
             = (conn0\<lparr>winSize := ws\<rparr>, quiet\<lparr>trace := [EvWrite ([IAC, SB, 31] @ ws @ [IAC, SE])]\<rparr>)
           \<and> map unat ws = [0, 132, 1, 44])"
proof -
  have r: "state conn0 \<noteq> stateNotReady" by (simp add: conn0_state)
  have q: "quiet\<lparr>wres := tl (wres quiet), trace := trace quiet @ t\<rparr> = quiet\<lparr>trace := t\<rparr>" for t
    by (simp add: quiet_def)
  from SetWindowSize_sends_frame [OF r, of 132 300 quiet] r
  show ?thesis by (simp add: q)
qed

text \<open>
  The claim as stated fails on a connection in the state \<open>stateNotReady\<close> (one that
  was closed): the four bytes are stored, the guard of \<^verbatim>\<open>Write\<close> refuses to send,
  \<^verbatim>\<open>SetWindowSize\<close> drops the error, and nothing reaches the transport.
\<close>

theorem SetWindowSize_not_ready_sends_nothing:
  "state (conn0\<lparr>state := stateNotReady\<rparr>) = stateNotReady
   \<and> SetWindowSize (conn0\<lparr>state := stateNotReady\<rparr>) 80 24 quiet
       = (conn0\<lparr>state := stateNotReady, winSize := [0, 80, 0, 24]\<rparr>, quiet)"
  by (simp add: SetWindowSize_eq sendSB_def Write_def Let_def)

subsection \<open>What Read does to the connection\<close>

text \<open>
  Nothing that runs under \<^verbatim>\<open>Read\<close> assigns to \<^verbatim>\<open>options\<close> or \<^verbatim>\<open>winSize\<close>, also not
  in the receiver's copy (which shares the map and the slice's array with the
  caller's struct): only \<^verbatim>\<open>state\<close> is assigned.
\<close>

lemma processByte_frame:
  assumes "processByte b (p, cb, out, w) = (r, p', cb', out', w')"
  shows "options p' = options p \<and> winSize p' = winSize p"
  using assms
  by (cases "state p")
     (auto simp: processByte_def Let_def split: if_splits prod.splits ret.splits option.splits)

lemma processCommands_loop_frame:
  "processCommands_loop bs (p, cb, out, w) = (r, p', cb', out', w')
   \<Longrightarrow> options p' = options p \<and> winSize p' = winSize p"
proof (induction bs arbitrary: p cb out w)
  case Nil
  then show ?case by simp
next
  case (Cons b bs)
  obtain ro p1 cb1 out1 w1 where st: "processByte b (p, cb, out, w) = (ro, p1, cb1, out1, w1)"
    by (cases "processByte b (p, cb, out, w)") auto
  note f = processByte_frame [OF st]
  show ?case
  proof (cases ro)
    case None
    with Cons.prems st have "processCommands_loop bs (p1, cb1, out1, w1) = (r, p', cb', out', w')"
      by simp
    from Cons.IH [OF this] f show ?thesis by simp
  next
    case (Some x)
    with Cons.prems st have "p' = p1" by simp
    with f show ?thesis by simp
  qed
qed

lemma processCommands_frame:
  "processCommands p bs out w = (r, p', out', w')
   \<Longrightarrow> options p' = options p \<and> winSize p' = winSize p"
  using processCommands_loop_frame [of bs p "[]" out w]
  by (auto simp: processCommands_def split: prod.splits)

lemma Read_loop_frame:
  "Read_loop rs p blen out w = (r, rs', p', w')
   \<Longrightarrow> options p' = options p \<and> winSize p' = winSize p"
proof (induction rs arbitrary: p out w)
  case Nil
  then show ?case by simp
next
  case (Cons x rs)
  obtain rawData err where x: "x = (rawData, err)" by (cases x)
  show ?case
  proof (cases "length rawData > 0")
    case False
    with Cons.prems x have "(err \<noteq> None \<and> p' = p) \<or> Read_loop rs p blen out w = (r, rs', p', w')"
      by (auto split: if_splits)
    then show ?thesis using Cons.IH by blast
  next
    case True
    obtain r1 p1 out1 w1 where pc: "processCommands p rawData out w = (r1, p1, out1, w1)"
      by (cases "processCommands p rawData out w") auto
    note f = processCommands_frame [OF pc]
    from Cons.prems x True pc
    have "p' = p1 \<or> Read_loop rs p1 blen (drop (min blen (length out1)) out1) w1 = (r, rs', p', w')"
      by (auto simp: Buffer_Read_def Let_def split: if_splits ret.splits option.splits)
    then show ?thesis using Cons.IH f by auto
  qed
qed

lemma Read_frame:
  "Read p blen rs w = (r, rs', p', w')
   \<Longrightarrow> options p' = options p \<and> winSize p' = winSize p"
  using Read_loop_frame [of rs p blen "[]" w]
  by (auto simp: Read_def split: if_splits)

text \<open>
  Claim C10. A call \<^verbatim>\<open>c.Read(b)\<close> through a valid pointer leaves the struct behind
  the pointer as it was, and every other struct of the store; what it changes is
  the receiver's copy, a new cell, and there only the field \<^verbatim>\<open>state\<close>. So the next
  call through the same pointer behaves as \<^verbatim>\<open>Read\<close> on the struct as stored before the
  first call: it starts from the stored state, not from the state the first call
  ended in.
\<close>

theorem Read_leaves_connection_unchanged:
  assumes "cells s a = Some c" and "a < fresh s"
      and "Read_at a blen rs s w = (r, rs', s', w')"
  shows "cells s' a = Some c
         \<and> (\<forall>b. b \<noteq> fresh s \<longrightarrow> cells s' b = cells s b)
         \<and> (\<exists>p'. cells s' (fresh s) = Some p' \<and> options p' = options c \<and> winSize p' = winSize c)
         \<and> (case Read_at a blen2 rs2 s' w2 of (r2, rs2', s2, w2') \<Rightarrow> (r2, rs2', w2'))
             = (case Read c blen2 rs2 w2 of (r2, rs2', p2, w2') \<Rightarrow> (r2, rs2', w2'))"
proof -
  obtain p' where rd: "Read c blen rs w = (r, rs', p', w')"
    and s': "s' = s\<lparr>cells := (cells s)(fresh s \<mapsto> p'), fresh := Suc (fresh s)\<rparr>"
    using assms(1,3) by (auto simp: Read_at_def Let_def split: prod.splits)
  have kept: "cells s' a = Some c"
    using assms(1,2) s' by simp
  have others: "\<forall>b. b \<noteq> fresh s \<longrightarrow> cells s' b = cells s b"
    using s' by simp
  have copy: "\<exists>p'. cells s' (fresh s) = Some p' \<and> options p' = options c \<and> winSize p' = winSize c"
    using s' Read_frame [OF rd] by simp
  have again: "(case Read_at a blen2 rs2 s' w2 of (r2, rs2', s2, w2') \<Rightarrow> (r2, rs2', w2'))
             = (case Read c blen2 rs2 w2 of (r2, rs2', p2, w2') \<Rightarrow> (r2, rs2', w2'))"
    using kept by (simp add: Read_at_def Let_def split: prod.splits)
  from kept others copy again show ?thesis by blast
qed

text \<open>
  A command split over two calls: the first call ends after \<open>IAC\<close>, in the copy's
  state \<open>stateInIAC\<close>; the second call starts from the stored \<open>stateData\<close> again and
  returns the bytes \<open>DO\<close>, \<open>Echo\<close> as plain data.
\<close>

lemma Read_first_half:
  "Read conn0 10 [([72, IAC], None)] quiet = (Returns 1 [72] None, [], conn0\<lparr>state := stateInIAC\<rparr>, quiet)"
  by (simp add: Read_def conn0_state processCommands_def processByte_def Buffer_Read_def)

lemma Read_second_half:
  "Read conn0 10 [([DO, Echo, 73], None)] quiet = (Returns 3 [DO, Echo, 73] None, [], conn0, quiet)"
  by (simp add: Read_def conn0_state processCommands_def processByte_def Buffer_Read_def)

theorem Read_leaves_connection_unchanged_witness:
  "cells store0 0 = Some conn0 \<and> 0 < fresh store0
   \<and> Read_at 0 10 [([72, IAC], None)] store0 quiet
       = (Returns 1 [72] None, [],
          \<lparr>cells = [0 \<mapsto> conn0, 1 \<mapsto> conn0\<lparr>state := stateInIAC\<rparr>], fresh = 2\<rparr>, quiet)
   \<and> cells \<lparr>cells = [0 \<mapsto> conn0, 1 \<mapsto> conn0\<lparr>state := stateInIAC\<rparr>], fresh = 2\<rparr> 0 = Some conn0
   \<and> (case Read_at 0 10 [([DO, Echo, 73], None)]
              \<lparr>cells = [0 \<mapsto> conn0, 1 \<mapsto> conn0\<lparr>state := stateInIAC\<rparr>], fresh = 2\<rparr> quiet
        of (r2, rs2', s2, w2') \<Rightarrow> (r2, rs2', w2'))
       = (Returns 3 [DO, Echo, 73] None, [], quiet)"
proof -
  have c: "cells store0 0 = Some conn0" and f: "0 < fresh store0"
    by (simp_all add: store0_def)
  have run: "Read_at 0 10 [([72, IAC], None)] store0 quiet
       = (Returns 1 [72] None, [],
          \<lparr>cells = [0 \<mapsto> conn0, 1 \<mapsto> conn0\<lparr>state := stateInIAC\<rparr>], fresh = 2\<rparr>, quiet)"
    by (simp add: Read_at_def store0_def Read_first_half)
  from Read_leaves_connection_unchanged [OF c f run, of 10 "[([DO, Echo, 73], None)]" quiet]
  have "cells \<lparr>cells = [0 \<mapsto> conn0, 1 \<mapsto> conn0\<lparr>state := stateInIAC\<rparr>], fresh = 2\<rparr> 0 = Some conn0"
    and "(case Read_at 0 10 [([DO, Echo, 73], None)]
              \<lparr>cells = [0 \<mapsto> conn0, 1 \<mapsto> conn0\<lparr>state := stateInIAC\<rparr>], fresh = 2\<rparr> quiet
        of (r2, rs2', s2, w2') \<Rightarrow> (r2, rs2', w2'))
       = (Returns 3 [DO, Echo, 73] None, [], quiet)"
    by (simp_all add: Read_second_half)
  with c f run show ?thesis by blast
qed

subsection \<open>After Close\<close>

text \<open>
  Claim C8, as amended. After \<^verbatim>\<open>Close\<close> through a valid pointer the struct behind it
  is in the state \<open>stateNotReady\<close>, whatever its state was, and a \<^verbatim>\<open>Read\<close> through
  the pointer returns 0 bytes and the not-ready error without reading from the
  transport or writing to it. \<^verbatim>\<open>processCommands\<close> in the state \<open>stateNotReady\<close>, on
  a chunk of at least one byte, returns the not-ready error and leaves the plain
  data, the connection and the world as they are.
\<close>

theorem not_ready_after_Close:
  assumes "cells s a = Some c" and "Close_at a s w = (r, s', w')" and "bs \<noteq> []"
  shows "cells s' a = Some (c\<lparr>state := stateNotReady\<rparr>)
         \<and> (\<exists>s''. Read_at a blen rs s' w' = (Returns 0 [] (Some ErrNotReady), rs, s'', w'))
         \<and> processCommands (p\<lparr>state := stateNotReady\<rparr>) bs out v
             = (Ret (Some ErrNotReady), p\<lparr>state := stateNotReady\<rparr>, out, v)"
proof -
  have s': "s' = s\<lparr>cells := (cells s)(a \<mapsto> c\<lparr>state := stateNotReady\<rparr>)\<rparr>"
    using assms(1,2) by (auto simp: Close_at_def Close_def conn_Close_def Let_def)
  then have cell: "cells s' a = Some (c\<lparr>state := stateNotReady\<rparr>)"
    by simp
  then have rd: "\<exists>s''. Read_at a blen rs s' w' = (Returns 0 [] (Some ErrNotReady), rs, s'', w')"
    by (simp add: Read_at_def Read_def Let_def)
  obtain b bs' where bs: "bs = b # bs'"
    using assms(3) by (cases bs) auto
  have "processCommands (p\<lparr>state := stateNotReady\<rparr>) bs out v
             = (Ret (Some ErrNotReady), p\<lparr>state := stateNotReady\<rparr>, out, v)"
    by (simp add: bs processCommands_def processByte_def)
  with cell rd show ?thesis by blast
qed

theorem not_ready_after_Close_witness:
  "cells store0 0 = Some conn0
   \<and> Close_at 0 store0 quiet
       = (Ret None, store0\<lparr>cells := [0 \<mapsto> conn0\<lparr>state := stateNotReady\<rparr>]\<rparr>, quiet\<lparr>trace := [EvClose]\<rparr>)
   \<and> [72 :: byte] \<noteq> []
   \<and> (\<exists>s''. Read_at 0 10 [([72], None)] (store0\<lparr>cells := [0 \<mapsto> conn0\<lparr>state := stateNotReady\<rparr>]\<rparr>)
                (quiet\<lparr>trace := [EvClose]\<rparr>)
              = (Returns 0 [] (Some ErrNotReady), [([72], None)], s'', quiet\<lparr>trace := [EvClose]\<rparr>))
   \<and> processCommands (conn0\<lparr>state := stateNotReady\<rparr>) [72] [] quiet
       = (Ret (Some ErrNotReady), conn0\<lparr>state := stateNotReady\<rparr>, [], quiet)"
proof -
  have c: "cells store0 0 = Some conn0"
    by (simp add: store0_def)
  have cl: "Close_at 0 store0 quiet
       = (Ret None, store0\<lparr>cells := [0 \<mapsto> conn0\<lparr>state := stateNotReady\<rparr>]\<rparr>, quiet\<lparr>trace := [EvClose]\<rparr>)"
    by (simp add: Close_at_def Close_def conn_Close_def store0_def quiet_def)
  have ne: "[72 :: byte] \<noteq> []" by simp
  from not_ready_after_Close [OF c cl ne, of 10 "[([72], None)]" conn0 "[]" quiet] c cl ne
  show ?thesis by blast
qed

text \<open>
  The claim as stated fails on the empty chunk: the state is tested inside the
  loop, once per byte, so with no byte to process \<^verbatim>\<open>processCommands\<close> returns
  \<^verbatim>\<open>nil\<close> in the state \<open>stateNotReady\<close>.
\<close>

theorem not_ready_empty_input_returns_nil:
  "processCommands (conn0\<lparr>state := stateNotReady\<rparr>) [] [] quiet
     = (Ret None, conn0\<lparr>state := stateNotReady\<rparr>, [], quiet)"
  by (simp add: processCommands_def)

end
